theory Spec2Isabelle
  imports Complex_Main
begin

section \<open>Data model\<close>

text \<open>
  The values the code assigns to \<^verbatim>\<open>job.state\<close>: Python strings, and the one-element
  tuple written by the statement \<^verbatim>\<open>job.state = 'POSTPROCESSED',\<close> of \<^verbatim>\<open>postprocess\<close>.
\<close>

datatype pyval = Str string | Tuple "string list"

text \<open>
  A \<^verbatim>\<open>BalsamJob\<close> as \<^verbatim>\<open>transitions.py\<close> reads and writes it. The primary key is kept
  in its string form. Optional text fields are strings, the empty string being the falsy
  value the code tests with \<^verbatim>\<open>not\<close>. The fields \<open>preprocess_cmd\<close> and \<open>postprocess_cmd\<close>
  are the attributes \<^verbatim>\<open>job.preprocess\<close> and \<^verbatim>\<open>job.postprocess\<close> (renamed, since the
  transition functions carry those names); \<open>old_state\<close> is the attribute
  \<^verbatim>\<open>job.__old_state\<close> that the cache keeps in memory beside the persisted fields.
\<close>

record job =
  pk :: string
  state :: pyval
  old_state :: pyval
  working_directory :: string
  input_files :: string
  stage_in_url :: string
  stage_out_url :: string
  stage_out_files :: string
  preprocess_cmd :: string
  postprocess_cmd :: string
  post_error_handler :: bool
  post_timeout_handler :: bool
  auto_timeout_retry :: bool
  wait_for_parents :: bool
  parents :: "string list"

text \<open>The calls the code makes on the job store that change it, in the order made.\<close>

datatype db_call =
    Atomic_enter
  | Batch_update_state "string list" pyval
  | Atomic_exit

text \<open>The raise sites of \<^verbatim>\<open>BalsamTransitionError\<close>, one constructor each.\<close>

datatype transition_failure =
    Stage_in_transfer_failed
  | Symlink_failed
  | Stage_out_failed
  | Preprocessor_missing
  | Preprocess_failed
  | Preprocess_returned int
  | No_postprocessor_found
  | Postprocessor_missing
  | Postprocess_failed
  | Postprocess_returned int
  | Error_handling_did_not_fix_state
  | Timeout_handling_did_not_change_state
  | No_timeout_handling
  | No_error_handler

datatype exn =
    BalsamTransitionError transition_failure
  | ValueError
  | NameError
  | UnboundLocalError
  | IndexError
  | KeyError
  | ZeroDivisionError
  | DoesNotExist

text \<open>
  Log records of level WARNING and above (\<^verbatim>\<open>logger.warning\<close>, \<^verbatim>\<open>logger.exception\<close>);
  the job is named by its key. Debug and info messages are not recorded.
\<close>

datatype log_record =
    Warning_unhandled_timeout string
  | Exception_transition_error string transition_failure
  | Exception_marking_failed string

text \<open>
  What lies outside the worker's memory: the job store (one persisted record per key), the
  paths that exist on the filesystem, the trace of store writes, the log, and the
  module-level \<^verbatim>\<open>EXIT_FLAG\<close> that the signal handler sets.
\<close>

record world =
  store :: "string \<rightharpoonup> job"
  files :: "string set"
  db_calls :: "db_call list"
  log :: "log_record list"
  exit_flag :: bool

section \<open>Job store and filesystem primitives\<close>

definition get_parents_by_id :: "job \<Rightarrow> string list" where
  "get_parents_by_id j = parents j"

text \<open>
  Modelled from the spec: \<^verbatim>\<open>BalsamJob.get_parents\<close> (the model class is not part of the
  sources). The spec's data model makes \<open>parents\<close> the ids of the jobs this job depends on;
  the query returns the persisted records whose id is among them, each record once.
\<close>

definition get_parents :: "world \<Rightarrow> job \<Rightarrow> job list" where
  "get_parents w j = List.map_filter (store w) (remdups (get_parents_by_id j))"

text \<open>\<^verbatim>\<open>parents.filter(state='JOB_FINISHED').count()\<close>\<close>

definition finished_parents :: "world \<Rightarrow> job \<Rightarrow> nat" where
  "finished_parents w j =
     length (filter (\<lambda>p. state p = Str ''JOB_FINISHED'') (get_parents w j))"

text \<open>
  Modelled from the spec: \<^verbatim>\<open>BalsamJob.batch_update_state\<close> (not part of the sources), the
  store's \<^verbatim>\<open>batch_update_state(job_ids, new_state)\<close>: every persisted record whose id is
  in the list gets the new state; nothing else changes.
\<close>

definition batch_update_state :: "string list \<Rightarrow> pyval \<Rightarrow> world \<Rightarrow> world" where
  "batch_update_state pk_list new_state w =
     w\<lparr>store := (\<lambda>k. if k \<in> set pk_list
                      then map_option (\<lambda>r. r\<lparr>state := new_state\<rparr>) (store w k)
                      else store w k),
       db_calls := db_calls w @ [Batch_update_state pk_list new_state]\<rparr>"

text \<open>
  \<^verbatim>\<open>os.path.exists\<close> and \<^verbatim>\<open>os.makedirs\<close> on the set of existing paths. The code calls
  \<^verbatim>\<open>makedirs\<close> outside any \<^verbatim>\<open>try\<close>; the call is taken to succeed.
\<close>

definition path_exists :: "world \<Rightarrow> string \<Rightarrow> bool" where
  "path_exists w p = (p \<in> files w)"

definition makedirs :: "string \<Rightarrow> world \<Rightarrow> world" where
  "makedirs p w = w\<lparr>files := insert p (files w)\<rparr>"

section \<open>Bulk write-back\<close>

text \<open>
  \<^verbatim>\<open>update_jobs[job.state].append(job.pk)\<close> on a \<^verbatim>\<open>defaultdict(list)\<close>: the dictionary is
  an association list in insertion order.
\<close>

fun append_update :: "pyval \<Rightarrow> string \<Rightarrow> (pyval \<times> string list) list \<Rightarrow> (pyval \<times> string list) list" where
  "append_update s k [] = [(s, [k])]"
| "append_update s k ((s', ks) # rest) =
     (if s' = s then (s', ks @ [k]) # rest else (s', ks) # append_update s k rest)"

text \<open>The first loop of \<^verbatim>\<open>update_states_from_cache\<close>.\<close>

fun collect_updates ::
  "job list \<Rightarrow> (pyval \<times> string list) list \<Rightarrow> (pyval \<times> string list) list \<times> job list" where
  "collect_updates [] update_jobs = (update_jobs, [])"
| "collect_updates (j # js) update_jobs =
     (if state j \<noteq> old_state j
      then (let (u, js') = collect_updates js (append_update (state j) (pk j) update_jobs)
            in (u, j\<lparr>old_state := state j\<rparr> # js'))
      else (let (u, js') = collect_updates js update_jobs
            in (u, j # js')))"

definition update_states_from_cache :: "world \<Rightarrow> job list \<Rightarrow> world \<times> job list" where
  "update_states_from_cache w job_cache =
     (let (update_jobs, cache') = collect_updates job_cache []
      in if update_jobs = [] then (w, cache')
         else (let w1 = w\<lparr>db_calls := db_calls w @ [Atomic_enter]\<rparr>;
                   w2 = fold (\<lambda>(newstate, joblist). batch_update_state joblist newstate)
                          update_jobs w1
               in (w2\<lparr>db_calls := db_calls w2 @ [Atomic_exit]\<rparr>, cache')))"

section \<open>Fast-forward\<close>

definition check_parents :: "world \<Rightarrow> job \<Rightarrow> job" where
  "check_parents w j =
     (let num_parents = length (get_parents_by_id j);
          ready = (if num_parents = 0 \<or> \<not> wait_for_parents j then True
                   else num_parents = finished_parents w j)
      in if ready then j\<lparr>state := Str ''READY''\<rparr>
         else if state j \<noteq> Str ''AWAITING_PARENTS'' then j\<lparr>state := Str ''AWAITING_PARENTS''\<rparr>
         else j)"

text \<open>A \<^verbatim>\<open>for\<close> loop over the cache whose body may change the world and the job.\<close>

fun for_jobs :: "(world \<Rightarrow> job \<Rightarrow> world \<times> job) \<Rightarrow> world \<Rightarrow> job list \<Rightarrow> world \<times> job list" where
  "for_jobs body w [] = (w, [])"
| "for_jobs body w (j # js) =
     (let (w1, j1) = body w j;
          (w2, js2) = for_jobs body w1 js
      in (w2, j1 # js2))"

text \<open>The first loop of \<^verbatim>\<open>fast_forward\<close>: the dependency check.\<close>

definition dependency_check :: "world \<Rightarrow> job list \<Rightarrow> job list" where
  "dependency_check w job_cache =
     map (\<lambda>j. if state j \<in> set [Str ''CREATED'', Str ''AWAITING_PARENTS'']
              then check_parents w j else j) job_cache"

text \<open>The body of the second loop, with the generator's filter \<^verbatim>\<open>j.state == 'READY'\<close>.\<close>

definition skip_stage_in :: "world \<Rightarrow> job \<Rightarrow> world \<times> job" where
  "skip_stage_in w j =
     (if state j = Str ''READY''
      then (let workdir = working_directory j;
                w1 = (if \<not> path_exists w workdir then makedirs workdir w else w);
                hasParents = (get_parents_by_id j \<noteq> []);
                hasInput = (input_files j \<noteq> []);
                hasRemote = (stage_in_url j \<noteq> [])
            in (w1, if \<not> hasRemote \<and> \<not> (hasParents \<and> hasInput)
                    then j\<lparr>state := Str ''STAGED_IN''\<rparr> else j))
      else (w, j))"

definition skip_preprocess :: "job \<Rightarrow> job" where
  "skip_preprocess j =
     (if state j = Str ''STAGED_IN'' then
        (if preprocess_cmd j = [] then j\<lparr>state := Str ''PREPROCESSED''\<rparr> else j)
      else j)"

definition skip_postprocess :: "job \<Rightarrow> job" where
  "skip_postprocess j =
     (if state j = Str ''RUN_DONE'' \<and> postprocess_cmd j = []
      then j\<lparr>state := Str ''POSTPROCESSED''\<rparr> else j)"

definition timeout_retry :: "job \<Rightarrow> job" where
  "timeout_retry j =
     (if state j = Str ''RUN_TIMEOUT'' \<and> auto_timeout_retry j \<and> \<not> post_timeout_handler j
      then j\<lparr>state := Str ''RESTART_READY''\<rparr> else j)"

definition timeout_fail :: "job \<Rightarrow> job" where
  "timeout_fail j =
     (if state j = Str ''RUN_TIMEOUT'' \<and> \<not> auto_timeout_retry j
         \<and> \<not> (postprocess_cmd j \<noteq> [] \<and> post_timeout_handler j)
      then j\<lparr>state := Str ''FAILED''\<rparr> else j)"

definition error_fail :: "job \<Rightarrow> job" where
  "error_fail j =
     (if state j = Str ''RUN_ERROR'' \<and> \<not> (post_error_handler j \<and> postprocess_cmd j \<noteq> [])
      then j\<lparr>state := Str ''FAILED''\<rparr> else j)"

definition skip_stage_out :: "job \<Rightarrow> job" where
  "skip_stage_out j =
     (if state j = Str ''POSTPROCESSED'' \<and> \<not> (stage_out_url j \<noteq> [] \<and> stage_out_files j \<noteq> [])
      then j\<lparr>state := Str ''JOB_FINISHED''\<rparr> else j)"

definition fast_forward :: "world \<Rightarrow> job list \<Rightarrow> world \<times> job list" where
  "fast_forward w job_cache =
     (let c1 = dependency_check w job_cache;
          (w2, c2) = for_jobs skip_stage_in w c1;
          c3 = map skip_preprocess c2;
          c4 = map skip_postprocess c3;
          c5 = map timeout_retry c4;
          c6 = map timeout_fail c5;
          c7 = map error_fail c6;
          c8 = map skip_stage_out c7
      in update_states_from_cache w2 c8)"

section \<open>External collaborators\<close>

text \<open>How a subprocess started by \<^verbatim>\<open>subprocess.Popen\<close> and awaited by \<^verbatim>\<open>proc.wait\<close> ends.\<close>

datatype proc_outcome =
    Popen_raised
  | Wait_raised
  | Exited int

text \<open>
  The services the transition functions call and the sources do not contain, as
  parameters. Each takes the world and returns the world it leaves; a \<open>bool\<close> result is
  \<open>False\<close> when the call raises an exception. Everything that follows holds for every
  choice of these functions. A signal that arrives during such a call is a world returned
  with \<open>exit_flag\<close> set.
  \<^item> \<open>transfer_stage_in url dir\<close>: \<^verbatim>\<open>transfer.stage_in\<close>;
  \<^item> \<open>staged_transfer_out matches url\<close>: the body of the \<^verbatim>\<open>try\<close> of \<^verbatim>\<open>stage_out\<close>, copying
    the matches to the staging directory and calling \<^verbatim>\<open>transfer.stage_out\<close>;
  \<^item> \<open>glob_glob\<close>: \<^verbatim>\<open>glob.glob\<close>;
  \<^item> \<open>os_symlink src dst\<close>: \<^verbatim>\<open>os.symlink\<close>;
  \<^item> \<open>popen args cwd (timeout, error)\<close>: \<^verbatim>\<open>Popen\<close>, \<^verbatim>\<open>wait\<close> and \<^verbatim>\<open>communicate\<close>, in
    the environment \<^verbatim>\<open>job.get_envs(timeout=..., error=...)\<close>;
  \<^item> \<open>count_transitionable\<close>: \<^verbatim>\<open>BalsamJob.objects.filter(state__in=PROCESSABLE_STATES).count()\<close>;
  \<^item> \<open>acquire_transitionable n\<close>: the manager's method of that name.
\<close>

record env =
  transfer_stage_in :: "string \<Rightarrow> string \<Rightarrow> world \<Rightarrow> bool \<times> world"
  staged_transfer_out :: "string list \<Rightarrow> string \<Rightarrow> world \<Rightarrow> bool \<times> world"
  glob_glob :: "world \<Rightarrow> string \<Rightarrow> string list"
  os_symlink :: "string \<Rightarrow> string \<Rightarrow> world \<Rightarrow> bool \<times> world"
  popen :: "string list \<Rightarrow> string \<Rightarrow> bool \<times> bool \<Rightarrow> world \<Rightarrow> proc_outcome \<times> world"
  count_transitionable :: "world \<Rightarrow> int"
  acquire_transitionable :: "int \<Rightarrow> world \<Rightarrow> job list \<times> world"

text \<open>\<^verbatim>\<open>open(out, 'w')\<close>: the log file exists afterwards.\<close>

definition open_write :: "string \<Rightarrow> world \<Rightarrow> world" where
  "open_write p w = w\<lparr>files := insert p (files w)\<rparr>"

text \<open>
  Modelled from the spec: \<^verbatim>\<open>job.refresh_from_db()\<close> (the model class is not part of the
  sources): reload the job's persisted record; the in-memory \<open>old_state\<close> stays. A record
  that is gone from the store raises.
\<close>

definition refresh_from_db :: "world \<Rightarrow> job \<Rightarrow> job option" where
  "refresh_from_db w j = map_option (\<lambda>r. r\<lparr>old_state := old_state j\<rparr>) (store w (pk j))"

section \<open>Strings and paths\<close>

text \<open>\<^verbatim>\<open>str.split()\<close> without arguments: split at runs of (ASCII) whitespace.\<close>

definition whitespace :: "char \<Rightarrow> bool" where
  "whitespace c \<longleftrightarrow> c \<in> set [CHR '' '', CHR 0x09, CHR 0x0A, CHR 0x0B, CHR 0x0C, CHR 0x0D,
                               CHR 0x1C, CHR 0x1D, CHR 0x1E, CHR 0x1F]"

fun split_from :: "string \<Rightarrow> string \<Rightarrow> string list" where
  "split_from word [] = (if word = [] then [] else [word])"
| "split_from word (c # cs) =
     (if whitespace c then (if word = [] then split_from [] cs else word # split_from [] cs)
      else split_from (word @ [c]) cs)"

definition py_split :: "string \<Rightarrow> string list" where
  "py_split s = split_from [] s"

text \<open>\<^verbatim>\<open>os.path.join\<close> of two components and \<^verbatim>\<open>os.path.basename\<close> (POSIX).\<close>

definition path_join :: "string \<Rightarrow> string \<Rightarrow> string" where
  "path_join a p =
     (if p \<noteq> [] \<and> hd p = CHR ''/'' then p
      else if a = [] \<or> last a = CHR ''/'' then a @ p
      else a @ ''/'' @ p)"

definition basename :: "string \<Rightarrow> string" where
  "basename p = rev (takeWhile (\<lambda>c. c \<noteq> CHR ''/'') (rev p))"

section \<open>Cache refresh\<close>

text \<open>
  Python's \<^verbatim>\<open>round\<close> of a float to an integer: to the nearest integer, a tie going to the
  even one. The argument is taken as an exact real number; the quotients and halves it is
  evaluated at below are floats without rounding error.
\<close>

definition py_round :: "real \<Rightarrow> int" where
  "py_round x =
     (let f = \<lfloor>x\<rfloor>; d = x - of_int f
      in if d < 1 / 2 then f else if 1 / 2 < d then f + 1
         else if even f then f else f + 1)"

text \<open>\<^verbatim>\<open>target_count = round(num_transitionable / num_threads + 0.5)\<close>\<close>

definition target_count :: "int \<Rightarrow> int \<Rightarrow> exn + int" where
  "target_count num_transitionable num_threads =
     (if num_threads = 0 then Inl ZeroDivisionError
      else Inr (py_round (of_int num_transitionable / of_int num_threads + 1 / 2)))"

definition refresh_cache :: "env \<Rightarrow> world \<Rightarrow> job list \<Rightarrow> int \<Rightarrow> exn option \<times> world \<times> job list" where
  "refresh_cache e w job_cache num_threads =
     (let num_transitionable = count_transitionable e w
      in case target_count num_transitionable num_threads of
           Inl x \<Rightarrow> (Some x, w, job_cache)
         | Inr target \<Rightarrow>
             (let num_to_acquire = max 0 (target - int (length job_cache));
                  (acquired, w1) = acquire_transitionable e num_to_acquire w
              in (None, w1, map (\<lambda>j. j\<lparr>old_state := state j\<rparr>) (job_cache @ acquired))))"

text \<open>The share the spec names: \<^verbatim>\<open>ceil(total_transitionable / worker_count)\<close>.\<close>

definition ceil_share :: "int \<Rightarrow> int \<Rightarrow> int" where
  "ceil_share total_transitionable worker_count =
     \<lceil>(of_int total_transitionable :: real) / of_int worker_count\<rceil>"

section \<open>Transition functions\<close>

text \<open>
  A transition function returns the exception it raised, if any, the world it leaves and
  the job as it left it: what it did before raising stays done.
\<close>

type_synonym transition = "env \<Rightarrow> world \<Rightarrow> job \<Rightarrow> exn option \<times> world \<times> job"

text \<open>The loop of \<^verbatim>\<open>stage_in\<close> over \<^verbatim>\<open>matches\<close>; \<open>False\<close> when \<^verbatim>\<open>os.symlink\<close> raised.\<close>

fun link_matches :: "env \<Rightarrow> string \<Rightarrow> (string \<times> string) list \<Rightarrow> world \<Rightarrow> bool \<times> world" where
  "link_matches e work_dir [] w = (True, w)"
| "link_matches e work_dir ((parent_pk, inp_file) # ms) w =
     (let new_path = path_join work_dir (basename inp_file);
          new_path = (if path_exists w new_path then new_path @ ''_'' @ take 8 parent_pk
                      else new_path);
          (ok, w1) = os_symlink e inp_file new_path w
      in if ok then link_matches e work_dir ms w1 else (False, w1))"

text \<open>
  \<^verbatim>\<open>stage_in\<close>. Where the working directory is missing the code calls
  \<^verbatim>\<open>os.makedirs(workdir)\<close>, and no name \<^verbatim>\<open>workdir\<close> is bound in the function or the module
  (the local is \<^verbatim>\<open>work_dir\<close>): the call raises \<^verbatim>\<open>NameError\<close>.
\<close>

definition stage_in :: transition where
  "stage_in e w j =
     (let work_dir = working_directory j
      in if \<not> path_exists w work_dir then (Some NameError, w, j)
         else
          (let url_in = stage_in_url j;
               (ok, w1) = (if url_in \<noteq> [] then transfer_stage_in e url_in work_dir w
                           else (True, w))
           in if \<not> ok then (Some (BalsamTransitionError Stage_in_transfer_failed), w1, j)
              else
               (let input_patterns = py_split (input_files j);
                    matches = concat (map (\<lambda>parent.
                                concat (map (\<lambda>pattern.
                                  map (\<lambda>m. (pk parent, m))
                                    (glob_glob e w1 (path_join (working_directory parent) pattern)))
                                  input_patterns))
                                (get_parents w1 j));
                    (linked, w2) = link_matches e work_dir matches w1
                in if \<not> linked then (Some (BalsamTransitionError Symlink_failed), w2, j)
                   else (None, w2, j\<lparr>state := Str ''STAGED_IN''\<rparr>))))"

definition stage_out :: transition where
  "stage_out e w j =
     (let url_out = stage_out_url j
      in if url_out = [] then (None, w, j\<lparr>state := Str ''JOB_FINISHED''\<rparr>)
         else
          (let stage_out_patterns = py_split (stage_out_files j);
               work_dir = working_directory j;
               matches = concat (map (\<lambda>pattern. glob_glob e w (path_join work_dir pattern))
                                   stage_out_patterns)
           in if matches \<noteq> [] then
                (let (ok, w1) = staged_transfer_out e matches url_out w
                 in if \<not> ok then (Some (BalsamTransitionError Stage_out_failed), w1, j)
                    else (None, w1, j\<lparr>state := Str ''JOB_FINISHED''\<rparr>))
              else (None, w, j\<lparr>state := Str ''JOB_FINISHED''\<rparr>)))"

text \<open>
  \<^verbatim>\<open>preprocess\<close>. When \<^verbatim>\<open>Popen\<close> itself raises, the handler's \<^verbatim>\<open>proc.kill()\<close> finds
  \<^verbatim>\<open>proc\<close> unbound.
\<close>

definition preprocess :: transition where
  "preprocess e w j =
     (let preproc_app = preprocess_cmd j
      in if preproc_app = [] then (None, w, j\<lparr>state := Str ''PREPROCESSED''\<rparr>)
         else
          (case py_split preproc_app of
             [] \<Rightarrow> (Some IndexError, w, j)
           | exe # _ \<Rightarrow>
               if \<not> path_exists w exe
               then (Some (BalsamTransitionError Preprocessor_missing), w, j)
               else
                (let out = path_join (working_directory j) ''preprocess.log'';
                     w1 = open_write out w;
                     args = py_split preproc_app
                 in case popen e args (working_directory j) (False, False) w1 of
                      (Popen_raised, w2) \<Rightarrow> (Some UnboundLocalError, w2, j)
                    | (Wait_raised, w2) \<Rightarrow>
                        (Some (BalsamTransitionError Preprocess_failed), w2, j)
                    | (Exited retcode, w2) \<Rightarrow>
                        if retcode \<noteq> 0
                        then (Some (BalsamTransitionError (Preprocess_returned retcode)), w2, j)
                        else (None, w2, j\<lparr>state := Str ''PREPROCESSED''\<rparr>))))"

text \<open>
  \<^verbatim>\<open>postprocess(job, *, error_handling=False, timeout_handling=False)\<close>. With no
  postprocess command and neither flag the code runs \<^verbatim>\<open>job.state = 'POSTPROCESSED',\<close>:
  the trailing comma makes the assigned value a one-element tuple.
\<close>

definition postprocess :: "bool \<Rightarrow> bool \<Rightarrow> transition" where
  "postprocess error_handling timeout_handling e w j =
     (if error_handling \<and> timeout_handling then (Some ValueError, w, j)
      else
       (let postproc_app = postprocess_cmd j
        in if postproc_app = [] then
             (if error_handling
              then (Some (BalsamTransitionError No_postprocessor_found), w, j)
              else if timeout_handling
              then (None, w\<lparr>log := log w @ [Warning_unhandled_timeout (pk j)]\<rparr>,
                    j\<lparr>state := Str ''RESTART_READY''\<rparr>)
              else (None, w, j\<lparr>state := Tuple [''POSTPROCESSED'']\<rparr>))
           else
            (case py_split postproc_app of
               [] \<Rightarrow> (Some IndexError, w, j)
             | exe # _ \<Rightarrow>
                 if \<not> path_exists w exe
                 then (Some (BalsamTransitionError Postprocessor_missing), w, j)
                 else
                  (let out = path_join (working_directory j) ''postprocess.log'';
                       w1 = open_write out w;
                       args = py_split postproc_app
                   in case popen e args (working_directory j)
                             (timeout_handling, error_handling) w1 of
                        (Popen_raised, w2) \<Rightarrow> (Some UnboundLocalError, w2, j)
                      | (Wait_raised, w2) \<Rightarrow>
                          (Some (BalsamTransitionError Postprocess_failed), w2, j)
                      | (Exited retcode, w2) \<Rightarrow>
                          if retcode \<noteq> 0
                          then (Some (BalsamTransitionError (Postprocess_returned retcode)), w2, j)
                          else
                           (case refresh_from_db w2 j of
                              None \<Rightarrow> (Some DoesNotExist, w2, j)
                            | Some j1 \<Rightarrow>
                                if error_handling \<and> state j1 = Str ''RUN_ERROR''
                                then (Some (BalsamTransitionError
                                              Error_handling_did_not_fix_state), w2, j1)
                                else if timeout_handling \<and> state j1 = Str ''RUN_TIMEOUT''
                                then (Some (BalsamTransitionError
                                              Timeout_handling_did_not_change_state), w2, j1)
                                else if \<not> (error_handling \<or> timeout_handling)
                                then (None, w2, j1\<lparr>state := Str ''POSTPROCESSED''\<rparr>)
                                else (None, w2, j1))))))"

definition handle_timeout :: transition where
  "handle_timeout e w j =
     (if post_timeout_handler j then postprocess False True e w j
      else (Some (BalsamTransitionError No_timeout_handling), w, j))"

definition handle_run_error :: transition where
  "handle_run_error e w j =
     (if post_error_handler j then postprocess True False e w j
      else (Some (BalsamTransitionError No_error_handler), w, j))"

text \<open>The dictionary \<^verbatim>\<open>TRANSITIONS\<close>; \<open>None\<close> where the lookup raises \<^verbatim>\<open>KeyError\<close>.\<close>

definition TRANSITIONS :: "pyval \<Rightarrow> transition option" where
  "TRANSITIONS s =
     (if s = Str ''READY'' then Some stage_in
      else if s = Str ''STAGED_IN'' then Some preprocess
      else if s = Str ''RUN_DONE'' then Some (postprocess False False)
      else if s = Str ''RUN_TIMEOUT'' then Some handle_timeout
      else if s = Str ''RUN_ERROR'' then Some handle_run_error
      else if s = Str ''POSTPROCESSED'' then Some stage_out
      else None)"

section \<open>The transition pass of the worker\<close>

datatype pass_end = Pass_done | Pass_break | Pass_raised exn

text \<open>
  The \<^verbatim>\<open>for job in job_cache\<close> loop of \<^verbatim>\<open>_main\<close>: how it ended, the world, and the cache.
  An exception other than \<^verbatim>\<open>BalsamTransitionError\<close> leaves the loop.
\<close>

fun transition_pass :: "env \<Rightarrow> world \<Rightarrow> job list \<Rightarrow> pass_end \<times> world \<times> job list" where
  "transition_pass e w [] = (Pass_done, w, [])"
| "transition_pass e w (job # rest) =
     (case TRANSITIONS (state job) of
        None \<Rightarrow> (Pass_raised KeyError, w, job # rest)
      | Some transition_function \<Rightarrow>
          (case transition_function e w job of
             (Some (BalsamTransitionError err), w1, job1) \<Rightarrow>
               (let job2 = job1\<lparr>state := Str ''FAILED''\<rparr>;
                    w2 = w1\<lparr>log := log w1 @ [Exception_transition_error (pk job1) err,
                                             Exception_marking_failed (pk job1)]\<rparr>
                in if exit_flag w2 then (Pass_break, w2, job2 # rest)
                   else (let (r, w3, rest') = transition_pass e w2 rest
                         in (r, w3, job2 # rest')))
           | (Some x, w1, job1) \<Rightarrow> (Pass_raised x, w1, job1 # rest)
           | (None, w1, job1) \<Rightarrow>
               if exit_flag w1 then (Pass_break, w1, job1 # rest)
               else (let (r, w3, rest') = transition_pass e w1 rest
                     in (r, w3, job1 # rest'))))"

section \<open>Concrete inputs\<close>

text \<open>
  An environment whose services all succeed and change nothing, an empty world, and a job
  with every optional field empty: the inputs at which the theorems below are evaluated.
\<close>

definition quiet_env :: env where
  "quiet_env =
     \<lparr>transfer_stage_in = (\<lambda>url dir w. (True, w)),
      staged_transfer_out = (\<lambda>matches url w. (True, w)),
      glob_glob = (\<lambda>w pattern. []),
      os_symlink = (\<lambda>src dst w. (True, w)),
      popen = (\<lambda>args cwd flags w. (Exited 0, w)),
      count_transitionable = (\<lambda>w. 0),
      acquire_transitionable = (\<lambda>n w. ([], w))\<rparr>"

definition empty_world :: world where
  "empty_world = \<lparr>store = Map.empty, files = {}, db_calls = [], log = [], exit_flag = False\<rparr>"

definition new_job :: "string \<Rightarrow> pyval \<Rightarrow> job" where
  "new_job k s =
     \<lparr>pk = k, state = s, old_state = s, working_directory = ''/work/'' @ k,
      input_files = [], stage_in_url = [], stage_out_url = [], stage_out_files = [],
      preprocess_cmd = [], postprocess_cmd = [],
      post_error_handler = False, post_timeout_handler = False, auto_timeout_retry = True,
      wait_for_parents = True, parents = []\<rparr>"

text \<open>
  A job in RUN_ERROR whose postprocess command is its error handler, in a world where the
  command exists; and a job waiting for one parent, in a world that stores the parent in a
  given state.
\<close>

definition handler_job :: job where
  "handler_job = (new_job ''a'' (Str ''RUN_ERROR''))
     \<lparr>postprocess_cmd := ''/bin/fix'', post_error_handler := True\<rparr>"

definition handler_world :: world where
  "handler_world = empty_world\<lparr>store := [''a'' \<mapsto> handler_job], files := {''/bin/fix''}\<rparr>"

definition child_job :: job where
  "child_job = (new_job ''child'' (Str ''AWAITING_PARENTS''))\<lparr>parents := [''parent'']\<rparr>"

definition family_world :: "pyval \<Rightarrow> world" where
  "family_world s = empty_world\<lparr>store := [''child'' \<mapsto> child_job, ''parent'' \<mapsto> new_job ''parent'' s]\<rparr>"

text \<open>
  A cache in which the first job has changed state since the last write and the second
  has not, with the store as the last write left it; and a job whose preprocess command
  names an executable that does not exist.
\<close>

definition stale_cache :: "job list" where
  "stale_cache = [(new_job ''a'' (Str ''STAGED_IN''))\<lparr>old_state := Str ''READY''\<rparr>,
                  new_job ''b'' (Str ''RUN_DONE'')]"

definition stale_world :: world where
  "stale_world = empty_world\<lparr>store := [''a'' \<mapsto> new_job ''a'' (Str ''READY''),
                                       ''b'' \<mapsto> new_job ''b'' (Str ''RUN_DONE'')]\<rparr>"

definition missing_exe_job :: "string \<Rightarrow> job" where
  "missing_exe_job k = (new_job k (Str ''STAGED_IN''))\<lparr>preprocess_cmd := ''/bin/missing''\<rparr>"

section \<open>Fast-forward, job by job\<close>

text \<open>
  What one pass of \<^verbatim>\<open>fast_forward\<close> does to a single job: the eight loops in order.
  These definitions serve the proofs; the pass itself is \<open>fast_forward\<close> above.
\<close>

definition stage_in_skipped :: "job \<Rightarrow> job" where
  "stage_in_skipped j =
     (if state j = Str ''READY'' \<and> stage_in_url j = []
         \<and> \<not> (get_parents_by_id j \<noteq> [] \<and> input_files j \<noteq> [])
      then j\<lparr>state := Str ''STAGED_IN''\<rparr> else j)"

definition parents_checked :: "world \<Rightarrow> job \<Rightarrow> job" where
  "parents_checked w j = (if state j \<in> set [Str ''CREATED'', Str ''AWAITING_PARENTS'']
              then check_parents w j else j)"

definition ff_job :: "world \<Rightarrow> job \<Rightarrow> job" where
  "ff_job w j = skip_stage_out (error_fail (timeout_fail (timeout_retry (skip_postprocess
      (skip_preprocess (stage_in_skipped (parents_checked w j)))))))"

definition settled :: "job \<Rightarrow> bool" where
  "settled j \<longleftrightarrow>
     state j \<noteq> Str ''CREATED'' \<and>
     (state j = Str ''AWAITING_PARENTS'' \<longrightarrow> wait_for_parents j \<and> parents j \<noteq> []) \<and>
     (state j = Str ''READY'' \<longrightarrow> stage_in_url j \<noteq> [] \<or> (parents j \<noteq> [] \<and> input_files j \<noteq> [])) \<and>
     (state j = Str ''STAGED_IN'' \<longrightarrow> preprocess_cmd j \<noteq> []) \<and>
     (state j = Str ''RUN_DONE'' \<longrightarrow> postprocess_cmd j \<noteq> []) \<and>
     (state j = Str ''RUN_TIMEOUT'' \<longrightarrow> post_timeout_handler j \<and> (auto_timeout_retry j \<or> postprocess_cmd j \<noteq> [])) \<and>
     (state j = Str ''RUN_ERROR'' \<longrightarrow> post_error_handler j \<and> postprocess_cmd j \<noteq> []) \<and>
     (state j = Str ''POSTPROCESSED'' \<longrightarrow> stage_out_url j \<noteq> [] \<and> stage_out_files j \<noteq> [])"

definition ff_rest :: "job \<Rightarrow> job" where
  "ff_rest j = skip_stage_out (error_fail (timeout_fail (timeout_retry (skip_postprocess
      (skip_preprocess (stage_in_skipped j))))))"

section \<open>Properties of fast-forward\<close>

lemma collect_updates_cache_aux:
  "collect_updates js u = (u', js') \<Longrightarrow> js' = map (\<lambda>j. j\<lparr>old_state := state j\<rparr>) js"
  by (induction js arbitrary: u u' js') (auto split: prod.splits if_splits)

lemma collect_updates_cache:
  "snd (collect_updates js u) = map (\<lambda>j. j\<lparr>old_state := state j\<rparr>) js"
  using collect_updates_cache_aux [of js u] by (cases "collect_updates js u") simp

lemma update_states_from_cache_cache:
  "snd (update_states_from_cache w c) = map (\<lambda>j. j\<lparr>old_state := state j\<rparr>) c"
  using collect_updates_cache [of c "[]"]
  by (auto simp: update_states_from_cache_def Let_def split: prod.splits)

lemma skip_stage_in_snd: "snd (skip_stage_in w j) = stage_in_skipped j"
  by (simp add: skip_stage_in_def stage_in_skipped_def Let_def)

lemma for_jobs_skip_stage_in:
  "snd (for_jobs skip_stage_in w js) = map stage_in_skipped js"
proof (induction js arbitrary: w)
  case Nil
  show ?case by simp
next
  case (Cons j js)
  obtain w1 j1 where b: "skip_stage_in w j = (w1, j1)" by (cases "skip_stage_in w j")
  then have "j1 = stage_in_skipped j" using skip_stage_in_snd [of w j] by simp
  moreover obtain w2 js2 where r: "for_jobs skip_stage_in w1 js = (w2, js2)"
    by (cases "for_jobs skip_stage_in w1 js")
  moreover from r Cons [of w1] have "js2 = map stage_in_skipped js" by simp
  ultimately show ?case using b by simp
qed

lemma fast_forward_cache:
  "snd (fast_forward w c) = map (\<lambda>j. (ff_job w j)\<lparr>old_state := state (ff_job w j)\<rparr>) c"
proof -
  obtain w2 c2 where f: "for_jobs skip_stage_in w (dependency_check w c) = (w2, c2)"
    by (cases "for_jobs skip_stage_in w (dependency_check w c)")
  then have c2: "c2 = map stage_in_skipped (dependency_check w c)"
    using for_jobs_skip_stage_in [of w "dependency_check w c"] by simp
  have "snd (fast_forward w c) = map (\<lambda>j. j\<lparr>old_state := state j\<rparr>) (map (ff_job w) c)"
    unfolding fast_forward_def Let_def f c2 prod.case update_states_from_cache_cache
    by (simp add: dependency_check_def ff_job_def parents_checked_def)
  then show ?thesis by (simp add: o_def)
qed

lemmas ff_defs = ff_job_def parents_checked_def stage_in_skipped_def skip_preprocess_def
  skip_postprocess_def timeout_retry_def timeout_fail_def error_fail_def skip_stage_out_def
  check_parents_def get_parents_by_id_def

lemma ff_nth: "i < length c \<Longrightarrow> state (snd (fast_forward w c) ! i) = state (ff_job w (c ! i))"
  by (simp add: fast_forward_cache)

lemma state_cases:
  obtains "state j = Str ''CREATED''" | "state j = Str ''AWAITING_PARENTS''"
  | "state j = Str ''READY''" | "state j = Str ''STAGED_IN''" | "state j = Str ''RUN_DONE''"
  | "state j = Str ''RUN_TIMEOUT''" | "state j = Str ''RUN_ERROR''"
  | "state j = Str ''POSTPROCESSED''"
  | "state j \<notin> set [Str ''CREATED'', Str ''AWAITING_PARENTS'', Str ''READY'', Str ''STAGED_IN'',
      Str ''RUN_DONE'', Str ''RUN_TIMEOUT'', Str ''RUN_ERROR'', Str ''POSTPROCESSED'']"
  by (cases "state j \<in> set [Str ''CREATED'', Str ''AWAITING_PARENTS'', Str ''READY'', Str ''STAGED_IN'',
      Str ''RUN_DONE'', Str ''RUN_TIMEOUT'', Str ''RUN_ERROR'', Str ''POSTPROCESSED'']") auto

lemma ff_job_unmodifiable:
  "state j \<notin> set [Str ''CREATED'', Str ''AWAITING_PARENTS'', Str ''READY'', Str ''STAGED_IN'',
      Str ''RUN_DONE'', Str ''RUN_TIMEOUT'', Str ''RUN_ERROR'', Str ''POSTPROCESSED'']
   \<Longrightarrow> ff_job w j = j"
  by (simp add: ff_defs)

lemma ff_job_ready:
  "state j = Str ''READY'' \<Longrightarrow> preprocess_cmd j = [] \<Longrightarrow> input_files j = [] \<Longrightarrow> stage_in_url j = []
    \<Longrightarrow> parents j = [] \<Longrightarrow> state (ff_job w j) = Str ''PREPROCESSED''"
  by (simp add: ff_defs)

lemmas rest_defs = ff_rest_def stage_in_skipped_def skip_preprocess_def
  skip_postprocess_def timeout_retry_def timeout_fail_def error_fail_def skip_stage_out_def
  get_parents_by_id_def

lemma ff_job_rest: "ff_job w j = ff_rest (parents_checked w j)"
  by (simp add: ff_job_def ff_rest_def)

lemma ff_rest_other:
  "state j \<notin> set [Str ''READY'', Str ''STAGED_IN'', Str ''RUN_DONE'', Str ''RUN_TIMEOUT'',
      Str ''RUN_ERROR'', Str ''POSTPROCESSED''] \<Longrightarrow> ff_rest j = j"
  by (simp add: rest_defs)

lemma ff_rest_READY:
  "state j = Str ''READY'' \<Longrightarrow> ff_rest j =
     (if stage_in_url j = [] \<and> \<not> (parents j \<noteq> [] \<and> input_files j \<noteq> [])
      then (if preprocess_cmd j = [] then j\<lparr>state := Str ''PREPROCESSED''\<rparr>
            else j\<lparr>state := Str ''STAGED_IN''\<rparr>)
      else j)"
  by (cases "stage_in_url j = []"; cases "parents j = []"; cases "input_files j = []";
      cases "preprocess_cmd j = []"; simp add: rest_defs)

lemma ff_rest_STAGED_IN:
  "state j = Str ''STAGED_IN'' \<Longrightarrow> ff_rest j =
     (if preprocess_cmd j = [] then j\<lparr>state := Str ''PREPROCESSED''\<rparr> else j)"
  by (cases "preprocess_cmd j = []"; simp add: rest_defs)

lemma ff_rest_RUN_DONE:
  "state j = Str ''RUN_DONE'' \<Longrightarrow> ff_rest j =
     (if postprocess_cmd j = []
      then (if \<not> (stage_out_url j \<noteq> [] \<and> stage_out_files j \<noteq> [])
            then j\<lparr>state := Str ''JOB_FINISHED''\<rparr>
            else j\<lparr>state := Str ''POSTPROCESSED''\<rparr>)
      else j)"
  by (cases "postprocess_cmd j = []"; cases "stage_out_url j = []"; cases "stage_out_files j = []";
      simp add: rest_defs)

lemma ff_rest_RUN_TIMEOUT:
  "state j = Str ''RUN_TIMEOUT'' \<Longrightarrow> ff_rest j =
     (if auto_timeout_retry j \<and> \<not> post_timeout_handler j
      then j\<lparr>state := Str ''RESTART_READY''\<rparr>
      else if \<not> auto_timeout_retry j \<and> \<not> (postprocess_cmd j \<noteq> [] \<and> post_timeout_handler j)
      then j\<lparr>state := Str ''FAILED''\<rparr>
      else j)"
  by (cases "auto_timeout_retry j"; cases "post_timeout_handler j"; cases "postprocess_cmd j = []";
      simp add: rest_defs)

lemma ff_rest_RUN_ERROR:
  "state j = Str ''RUN_ERROR'' \<Longrightarrow> ff_rest j =
     (if \<not> (post_error_handler j \<and> postprocess_cmd j \<noteq> [])
      then j\<lparr>state := Str ''FAILED''\<rparr> else j)"
  by (cases "post_error_handler j"; cases "postprocess_cmd j = []"; simp add: rest_defs)

lemma ff_rest_POSTPROCESSED:
  "state j = Str ''POSTPROCESSED'' \<Longrightarrow> ff_rest j =
     (if \<not> (stage_out_url j \<noteq> [] \<and> stage_out_files j \<noteq> [])
      then j\<lparr>state := Str ''JOB_FINISHED''\<rparr> else j)"
  by (cases "stage_out_url j = []"; cases "stage_out_files j = []"; simp add: rest_defs)

lemmas ff_rest_simps = ff_rest_READY ff_rest_STAGED_IN ff_rest_RUN_DONE ff_rest_RUN_TIMEOUT
  ff_rest_RUN_ERROR ff_rest_POSTPROCESSED

lemma settled_rest:
  assumes "state j \<noteq> Str ''CREATED''"
    and "state j = Str ''AWAITING_PARENTS'' \<Longrightarrow> wait_for_parents j \<and> parents j \<noteq> []"
  shows "settled (ff_rest j)"
proof (cases j rule: state_cases)
  case 1 with assms show ?thesis by simp
next
  case 2 with assms show ?thesis by (simp add: ff_rest_other settled_def)
next
  case 3 then show ?thesis by (simp add: ff_rest_READY settled_def)
next
  case 4 then show ?thesis by (simp add: ff_rest_STAGED_IN settled_def)
next
  case 5 then show ?thesis by (simp add: ff_rest_RUN_DONE settled_def)
next
  case 6 then show ?thesis by (simp add: ff_rest_RUN_TIMEOUT settled_def)
next
  case 7 then show ?thesis by (simp add: ff_rest_RUN_ERROR settled_def)
next
  case 8 then show ?thesis by (simp add: ff_rest_POSTPROCESSED settled_def)
next
  case 9 then show ?thesis by (simp add: ff_rest_other settled_def)
qed

lemma parents_checked_cases:
  "(parents_checked w j = j \<and> state j \<noteq> Str ''CREATED'' \<and> state j \<noteq> Str ''AWAITING_PARENTS'')
   \<or> parents_checked w j = j\<lparr>state := Str ''READY''\<rparr>
   \<or> (parents_checked w j = j\<lparr>state := Str ''AWAITING_PARENTS''\<rparr>
        \<and> wait_for_parents j \<and> parents j \<noteq> [])"
  by (cases "state j = Str ''AWAITING_PARENTS''")
     (auto simp add: parents_checked_def check_parents_def get_parents_by_id_def Let_def)

lemma settled_ff_job: "settled (ff_job w j)"
proof -
  have "settled (ff_rest j)"
    if "state j \<noteq> Str ''CREATED''" "state j \<noteq> Str ''AWAITING_PARENTS''"
    using that by (intro settled_rest) simp_all
  moreover have "settled (ff_rest (j\<lparr>state := Str ''READY''\<rparr>))"
    by (intro settled_rest) simp_all
  moreover have "settled (ff_rest (j\<lparr>state := Str ''AWAITING_PARENTS''\<rparr>))"
    if "wait_for_parents j" "parents j \<noteq> []"
    using that by (intro settled_rest) simp_all
  ultimately show ?thesis
    using parents_checked_cases [of w j] by (auto simp add: ff_job_rest)
qed

lemma settled_old_state [simp]: "settled (j\<lparr>old_state := v\<rparr>) = settled j"
  by (simp add: settled_def)

lemma state_ff_rest_READY:
  "state (ff_rest (j\<lparr>state := Str ''READY''\<rparr>)) \<noteq> Str ''AWAITING_PARENTS''"
  by (simp add: ff_rest_READY)

lemma settled_again:
  assumes "settled j"
  shows "state (ff_job w j) = state j \<longleftrightarrow>
     (state j = Str ''AWAITING_PARENTS'' \<longrightarrow> finished_parents w j \<noteq> length (parents j))"
proof (cases j rule: state_cases)
  case 1 with assms show ?thesis by (simp add: settled_def)
next
  case 2
  with assms have c: "wait_for_parents j" "parents j \<noteq> []" by (simp_all add: settled_def)
  show ?thesis
  proof (cases "finished_parents w j = length (parents j)")
    case True
    with 2 c have "parents_checked w j = j\<lparr>state := Str ''READY''\<rparr>"
      by (simp add: parents_checked_def check_parents_def get_parents_by_id_def Let_def)
    with 2 True show ?thesis using state_ff_rest_READY [of j] by (simp add: ff_job_rest)
  next
    case False
    with 2 c have "parents_checked w j = j"
      by (auto simp add: parents_checked_def check_parents_def get_parents_by_id_def Let_def)
    with 2 False show ?thesis by (simp add: ff_job_rest ff_rest_other)
  qed
next
  case 3 with assms show ?thesis
    by (simp add: settled_def ff_job_rest parents_checked_def ff_rest_READY)
next
  case 4 with assms show ?thesis
    by (simp add: settled_def ff_job_rest parents_checked_def ff_rest_STAGED_IN)
next
  case 5 with assms show ?thesis
    by (simp add: settled_def ff_job_rest parents_checked_def ff_rest_RUN_DONE)
next
  case 6 with assms show ?thesis
    by (simp add: settled_def ff_job_rest parents_checked_def ff_rest_RUN_TIMEOUT)
next
  case 7 with assms show ?thesis
    by (simp add: settled_def ff_job_rest parents_checked_def ff_rest_RUN_ERROR)
next
  case 8 with assms show ?thesis
    by (simp add: settled_def ff_job_rest parents_checked_def ff_rest_POSTPROCESSED)
next
  case 9 then show ?thesis
    by (simp add: ff_job_rest parents_checked_def ff_rest_other)
qed

lemma fast_forward_states:
  "map state (snd (fast_forward w c)) = map (\<lambda>j. state (ff_job w j)) c"
  by (simp add: fast_forward_cache o_def)

lemma fast_forward_settled: "j \<in> set (snd (fast_forward w c)) \<Longrightarrow> settled j"
  by (auto simp add: fast_forward_cache settled_ff_job)

text \<open>
  C4 (amended). Run fast-forward twice in succession, the second pass on the world and the
  cache the first pass left. The second pass leaves every job's state as the first pass
  left it if and only if no job that the first pass left in AWAITING_PARENTS has all its
  parents stored as JOB_FINISHED once the first pass has written its changes back.
\<close>

theorem fast_forward_twice:
  "map state (snd (fast_forward (fst (fast_forward w job_cache)) (snd (fast_forward w job_cache))))
     = map state (snd (fast_forward w job_cache))
   \<longleftrightarrow> (\<forall>j \<in> set (snd (fast_forward w job_cache)).
          state j = Str ''AWAITING_PARENTS'' \<longrightarrow>
          finished_parents (fst (fast_forward w job_cache)) j \<noteq> length (parents j))"
  using settled_again [OF fast_forward_settled, of _ w job_cache "fst (fast_forward w job_cache)"]
  by (simp add: fast_forward_states [of "fst (fast_forward w job_cache)"])

text \<open>
  C9. Fast-forward keeps the length of the cache, leaves the state of every job that is
  FAILED or JOB_FINISHED at the start of the pass as it is, and more generally leaves the
  state of every job whose state is not one of CREATED, AWAITING_PARENTS, READY, STAGED_IN,
  RUN_DONE, RUN_TIMEOUT, RUN_ERROR, POSTPROCESSED as it is.
\<close>

theorem fast_forward_modifiable_only:
  "length (snd (fast_forward w job_cache)) = length job_cache \<and>
   (\<forall>i < length job_cache.
      state (job_cache ! i) = Str ''FAILED'' \<or> state (job_cache ! i) = Str ''JOB_FINISHED''
      \<longrightarrow> state (snd (fast_forward w job_cache) ! i) = state (job_cache ! i)) \<and>
   (\<forall>i < length job_cache.
      state (job_cache ! i) \<notin> set [Str ''CREATED'', Str ''AWAITING_PARENTS'', Str ''READY'',
        Str ''STAGED_IN'', Str ''RUN_DONE'', Str ''RUN_TIMEOUT'', Str ''RUN_ERROR'',
        Str ''POSTPROCESSED'']
      \<longrightarrow> state (snd (fast_forward w job_cache) ! i) = state (job_cache ! i))"
proof -
  have "state (ff_job w j) = state j"
    if "state j \<notin> set [Str ''CREATED'', Str ''AWAITING_PARENTS'', Str ''READY'',
        Str ''STAGED_IN'', Str ''RUN_DONE'', Str ''RUN_TIMEOUT'', Str ''RUN_ERROR'',
        Str ''POSTPROCESSED'']" for j
    using ff_job_unmodifiable [OF that] by simp
  moreover have "state (ff_job w j) = state j"
    if "state j = Str ''FAILED'' \<or> state j = Str ''JOB_FINISHED''" for j
    using that ff_job_unmodifiable [of j w] by auto
  ultimately show ?thesis
    by (simp add: fast_forward_cache)
qed

text \<open>
  C8. A job in state READY with no preprocess command, empty input files, no stage-in URL
  and no parents is in state PREPROCESSED after one fast-forward pass, wherever it stands
  in the cache.
\<close>

theorem fast_forward_ready_to_preprocessed:
  assumes "i < length job_cache"
    and "state (job_cache ! i) = Str ''READY''"
    and "preprocess_cmd (job_cache ! i) = []"
    and "input_files (job_cache ! i) = []"
    and "stage_in_url (job_cache ! i) = []"
    and "parents (job_cache ! i) = []"
  shows "state (snd (fast_forward w job_cache) ! i) = Str ''PREPROCESSED''"
  using assms by (simp add: ff_nth ff_job_ready)

lemmas pass_defs = fast_forward_def dependency_check_def check_parents_def get_parents_by_id_def
  finished_parents_def get_parents_def skip_stage_in_def skip_preprocess_def skip_postprocess_def
  timeout_retry_def timeout_fail_def error_fail_def skip_stage_out_def
  update_states_from_cache_def batch_update_state_def path_exists_def makedirs_def
  List.map_filter_def Let_def

text \<open>
  The claim as it was stated fails: a child waiting for a parent that the same pass moves
  from POSTPROCESSED to JOB_FINISHED stays in AWAITING_PARENTS in the first pass and
  reaches PREPROCESSED in the second.
\<close>

theorem fast_forward_twice_counterexample:
  "map state (snd (fast_forward (family_world (Str ''POSTPROCESSED''))
                     [child_job, new_job ''parent'' (Str ''POSTPROCESSED'')]))
     = [Str ''AWAITING_PARENTS'', Str ''JOB_FINISHED'']
   \<and> map state (snd (fast_forward
        (fst (fast_forward (family_world (Str ''POSTPROCESSED''))
                [child_job, new_job ''parent'' (Str ''POSTPROCESSED'')]))
        (snd (fast_forward (family_world (Str ''POSTPROCESSED''))
                [child_job, new_job ''parent'' (Str ''POSTPROCESSED'')]))))
     = [Str ''PREPROCESSED'', Str ''JOB_FINISHED'']"
  by (simp add: pass_defs family_world_def child_job_def new_job_def empty_world_def)

theorem fast_forward_twice_witness:
  "map state (snd (fast_forward
        (fst (fast_forward (family_world (Str ''RUNNING'')) [child_job]))
        (snd (fast_forward (family_world (Str ''RUNNING'')) [child_job]))))
     = map state (snd (fast_forward (family_world (Str ''RUNNING'')) [child_job]))
   \<and> map state (snd (fast_forward (family_world (Str ''RUNNING'')) [child_job]))
     = [Str ''AWAITING_PARENTS'']"
proof -
  have "\<forall>j \<in> set (snd (fast_forward (family_world (Str ''RUNNING'')) [child_job])).
          state j = Str ''AWAITING_PARENTS'' \<longrightarrow>
          finished_parents (fst (fast_forward (family_world (Str ''RUNNING'')) [child_job])) j
            \<noteq> length (parents j)"
    by (simp add: pass_defs family_world_def child_job_def new_job_def empty_world_def)
  moreover have "map state (snd (fast_forward (family_world (Str ''RUNNING'')) [child_job]))
     = [Str ''AWAITING_PARENTS'']"
    by (simp add: pass_defs family_world_def child_job_def new_job_def empty_world_def)
  ultimately show ?thesis
    using fast_forward_twice [of "family_world (Str ''RUNNING'')" "[child_job]"] by blast
qed

theorem fast_forward_modifiable_only_witness:
  "state (snd (fast_forward empty_world
       [new_job ''a'' (Str ''FAILED''), new_job ''b'' (Str ''JOB_FINISHED''), new_job ''c'' (Str ''RUNNING'')]) ! 0)
     = Str ''FAILED''
   \<and> state (snd (fast_forward empty_world
       [new_job ''a'' (Str ''FAILED''), new_job ''b'' (Str ''JOB_FINISHED''), new_job ''c'' (Str ''RUNNING'')]) ! 1)
     = Str ''JOB_FINISHED''
   \<and> state (snd (fast_forward empty_world
       [new_job ''a'' (Str ''FAILED''), new_job ''b'' (Str ''JOB_FINISHED''), new_job ''c'' (Str ''RUNNING'')]) ! 2)
     = Str ''RUNNING''"
proof -
  let ?c = "[new_job ''a'' (Str ''FAILED''), new_job ''b'' (Str ''JOB_FINISHED''), new_job ''c'' (Str ''RUNNING'')]"
  note t = fast_forward_modifiable_only [of empty_world ?c]
  from t have a: "\<forall>i < length ?c. state (?c ! i) = Str ''FAILED'' \<or> state (?c ! i) = Str ''JOB_FINISHED''
      \<longrightarrow> state (snd (fast_forward empty_world ?c) ! i) = state (?c ! i)"
    by blast
  from t have b: "\<forall>i < length ?c. state (?c ! i) \<notin> set [Str ''CREATED'', Str ''AWAITING_PARENTS'', Str ''READY'',
        Str ''STAGED_IN'', Str ''RUN_DONE'', Str ''RUN_TIMEOUT'', Str ''RUN_ERROR'',
        Str ''POSTPROCESSED'']
      \<longrightarrow> state (snd (fast_forward empty_world ?c) ! i) = state (?c ! i)"
    by blast
  from a [rule_format, of 0] a [rule_format, of 1] b [rule_format, of 2]
  show ?thesis by (simp add: new_job_def)
qed

theorem fast_forward_ready_to_preprocessed_witness:
  "state (snd (fast_forward empty_world [new_job ''a'' (Str ''READY'')]) ! 0) = Str ''PREPROCESSED''"
  using fast_forward_ready_to_preprocessed [of 0 "[new_job ''a'' (Str ''READY'')]" empty_world]
  by (simp add: new_job_def)

section \<open>The dependency check\<close>

text \<open>
  The claim as it was stated fails: a job with a parent and \<open>wait_for_parents\<close> unset goes
  from AWAITING_PARENTS to READY while its parent is RUNNING.
\<close>

theorem dependency_check_counterexample:
  "parents (child_job\<lparr>wait_for_parents := False\<rparr>) = [''parent'']
   \<and> state (child_job\<lparr>wait_for_parents := False\<rparr>) = Str ''AWAITING_PARENTS''
   \<and> map_option state (store (family_world (Str ''RUNNING'')) ''parent'') = Some (Str ''RUNNING'')
   \<and> map state (dependency_check (family_world (Str ''RUNNING''))
                  [child_job\<lparr>wait_for_parents := False\<rparr>]) = [Str ''READY'']"
  by (simp add: dependency_check_def check_parents_def get_parents_by_id_def
      family_world_def child_job_def new_job_def empty_world_def)

lemma length_filter_all: "length (filter P xs) = length xs \<Longrightarrow> x \<in> set xs \<Longrightarrow> P x"
proof (induction xs)
  case Nil
  then show ?case by simp
next
  case (Cons a xs)
  have le: "length (filter P xs) \<le> length xs" by simp
  show ?case
  proof (cases "P a")
    case True
    with Cons show ?thesis by auto
  next
    case False
    with Cons.prems(1) le show ?thesis by simp
  qed
qed

lemma all_parents_finished:
  assumes eq: "length (parents j) = finished_parents w j" and p: "p \<in> set (parents j)"
  shows "\<exists>r. store w p = Some r \<and> state r = Str ''JOB_FINISHED''"
proof -
  let ?xs = "remdups (parents j)"
  let ?ys = "List.map_filter (store w) ?xs"
  have fp: "finished_parents w j = length (filter (\<lambda>r. state r = Str ''JOB_FINISHED'') ?ys)"
    by (simp add: finished_parents_def get_parents_def get_parents_by_id_def)
  have a: "length (filter (\<lambda>r. state r = Str ''JOB_FINISHED'') ?ys) \<le> length ?ys"
    by (rule length_filter_le)
  have b: "length ?ys = length (filter (\<lambda>x. store w x \<noteq> None) ?xs)"
    by (simp add: List.map_filter_def)
  have b': "length (filter (\<lambda>x. store w x \<noteq> None) ?xs) \<le> length ?xs"
    by (rule length_filter_le)
  have c: "length ?xs \<le> length (parents j)" by (rule length_remdups_leq)
  from eq fp a b b' c
  have e1: "length (filter (\<lambda>r. state r = Str ''JOB_FINISHED'') ?ys) = length ?ys"
    by linarith
  from eq fp a b b' c
  have e2: "length (filter (\<lambda>x. store w x \<noteq> None) ?xs) = length ?xs"
    by linarith
  from p have "p \<in> set ?xs" by simp
  from length_filter_all [OF e2 this] obtain r where r: "store w p = Some r" by auto
  with \<open>p \<in> set ?xs\<close> have "r \<in> set ?ys"
    by (force simp add: List.map_filter_def)
  from length_filter_all [OF e1 this] r show ?thesis by simp
qed

text \<open>
  C2 (amended). For a job that has at least one parent, has \<open>wait_for_parents\<close> set and is
  in AWAITING_PARENTS: if the dependency check of fast-forward makes it READY (or the
  whole pass leaves it in any state other than AWAITING_PARENTS), then every one of its
  parents is stored in state JOB_FINISHED when the pass starts.
\<close>

theorem dependency_check_ready_only_when_parents_finished:
  assumes "i < length job_cache"
    and "parents (job_cache ! i) \<noteq> []"
    and "wait_for_parents (job_cache ! i)"
    and "state (job_cache ! i) = Str ''AWAITING_PARENTS''"
    and "state (dependency_check w job_cache ! i) = Str ''READY''
         \<or> state (snd (fast_forward w job_cache) ! i) \<noteq> Str ''AWAITING_PARENTS''"
  shows "\<forall>p \<in> set (parents (job_cache ! i)).
           \<exists>r. store w p = Some r \<and> state r = Str ''JOB_FINISHED''"
proof -
  let ?j = "job_cache ! i"
  have "length (parents ?j) = finished_parents w ?j"
  proof (rule ccontr)
    assume ne: "length (parents ?j) \<noteq> finished_parents w ?j"
    with assms(2-4) have cp: "check_parents w ?j = ?j"
      by (simp add: check_parents_def get_parents_by_id_def Let_def)
    with assms(1,4) have "state (dependency_check w job_cache ! i) = Str ''AWAITING_PARENTS''"
      by (simp add: dependency_check_def)
    moreover from cp assms(4) have "state (ff_job w ?j) = Str ''AWAITING_PARENTS''"
      by (simp add: ff_job_rest parents_checked_def ff_rest_other)
    with assms(1) have "state (snd (fast_forward w job_cache) ! i) = Str ''AWAITING_PARENTS''"
      by (simp add: ff_nth)
    ultimately show False using assms(5) by simp
  qed
  then show ?thesis using all_parents_finished by blast
qed

theorem dependency_check_ready_only_when_parents_finished_witness:
  "map state (dependency_check (family_world (Str ''JOB_FINISHED'')) [child_job]) = [Str ''READY'']
   \<and> (\<exists>r. store (family_world (Str ''JOB_FINISHED'')) ''parent'' = Some r
           \<and> state r = Str ''JOB_FINISHED'')"
proof -
  have s: "map state (dependency_check (family_world (Str ''JOB_FINISHED'')) [child_job]) = [Str ''READY'']"
    by (simp add: dependency_check_def check_parents_def get_parents_by_id_def
        finished_parents_def get_parents_def List.map_filter_def
        family_world_def child_job_def new_job_def empty_world_def)
  then have 5: "state (dependency_check (family_world (Str ''JOB_FINISHED'')) [child_job] ! 0) = Str ''READY''
         \<or> state (snd (fast_forward (family_world (Str ''JOB_FINISHED'')) [child_job]) ! 0) \<noteq> Str ''AWAITING_PARENTS''"
    by (simp add: dependency_check_def)
  have 1: "0 < length [child_job]" by simp
  have 2: "parents ([child_job] ! 0) \<noteq> []" by (simp add: child_job_def)
  have 3: "wait_for_parents ([child_job] ! 0)" by (simp add: child_job_def new_job_def)
  have 4: "state ([child_job] ! 0) = Str ''AWAITING_PARENTS''" by (simp add: child_job_def new_job_def)
  from dependency_check_ready_only_when_parents_finished [OF 1 2 3 4 5]
  have "\<forall>p \<in> set (parents ([child_job] ! 0)).
           \<exists>r. store (family_world (Str ''JOB_FINISHED'')) p = Some r \<and> state r = Str ''JOB_FINISHED''" .
  then have "\<exists>r. store (family_world (Str ''JOB_FINISHED'')) ''parent'' = Some r
           \<and> state r = Str ''JOB_FINISHED''"
    by (simp add: child_job_def)
  with s show ?thesis by simp
qed

section \<open>Properties of the bulk write-back\<close>

lemma append_update_sound_aux:
  "(s, ks) \<in> set (append_update s0 k0 u) \<Longrightarrow> k \<in> set ks \<Longrightarrow> \<not> (s = s0 \<and> k = k0) \<Longrightarrow>
     \<exists>ks0. (s, ks0) \<in> set u \<and> k \<in> set ks0"
proof (induction u)
  case Nil
  then show ?case by simp
next
  case (Cons a u)
  obtain s' ks' where a: "a = (s', ks')" by (cases a)
  show ?case
  proof (cases "s' = s0")
    case True
    with Cons.prems a have "(s, ks) = (s0, ks' @ [k0]) \<or> (s, ks) \<in> set u" by simp
    then show ?thesis
    proof
      assume "(s, ks) = (s0, ks' @ [k0])"
      with Cons.prems(2,3) have "k \<in> set ks'" "s = s'" using True by auto
      with a show ?thesis by auto
    next
      assume "(s, ks) \<in> set u"
      with Cons.prems(2) show ?thesis by auto
    qed
  next
    case False
    with Cons.prems a have "(s, ks) = (s', ks') \<or> (s, ks) \<in> set (append_update s0 k0 u)" by simp
    then show ?thesis
    proof
      assume "(s, ks) = (s', ks')"
      with Cons.prems(2) a show ?thesis by auto
    next
      assume "(s, ks) \<in> set (append_update s0 k0 u)"
      from Cons.IH [OF this Cons.prems(2,3)] show ?thesis by auto
    qed
  qed
qed

lemma append_update_sound:
  "(s, ks) \<in> set (append_update s0 k0 u) \<Longrightarrow> k \<in> set ks \<Longrightarrow>
     (\<exists>ks0. (s, ks0) \<in> set u \<and> k \<in> set ks0) \<or> (s = s0 \<and> k = k0)"
  using append_update_sound_aux by blast

lemma collect_updates_sound:
  "collect_updates js u = (u', js') \<Longrightarrow> (s, ks) \<in> set u' \<Longrightarrow> k \<in> set ks \<Longrightarrow>
     (\<exists>ks0. (s, ks0) \<in> set u \<and> k \<in> set ks0)
     \<or> (\<exists>j \<in> set js. pk j = k \<and> state j = s \<and> state j \<noteq> old_state j)"
proof (induction js arbitrary: u u' js')
  case Nil
  then show ?case by auto
next
  case (Cons j js)
  show ?case
  proof (cases "state j \<noteq> old_state j")
    case True
    obtain u1 js1 where r: "collect_updates js (append_update (state j) (pk j) u) = (u1, js1)"
      by (cases "collect_updates js (append_update (state j) (pk j) u)")
    with True Cons.prems(1) have "u1 = u'" by simp
    with r Cons.IH [of "append_update (state j) (pk j) u" u1 js1] Cons.prems(2,3)
    have "(\<exists>ks0. (s, ks0) \<in> set (append_update (state j) (pk j) u) \<and> k \<in> set ks0)
          \<or> (\<exists>j \<in> set js. pk j = k \<and> state j = s \<and> state j \<noteq> old_state j)"
      by simp
    then show ?thesis
    proof
      assume "\<exists>ks0. (s, ks0) \<in> set (append_update (state j) (pk j) u) \<and> k \<in> set ks0"
      then obtain ks0 where "(s, ks0) \<in> set (append_update (state j) (pk j) u)" "k \<in> set ks0"
        by blast
      from append_update_sound [OF this] True show ?thesis by auto
    next
      assume "\<exists>j \<in> set js. pk j = k \<and> state j = s \<and> state j \<noteq> old_state j"
      then show ?thesis by auto
    qed
  next
    case False
    obtain u1 js1 where r: "collect_updates js u = (u1, js1)"
      by (cases "collect_updates js u")
    with False Cons.prems(1) have "u1 = u'" by simp
    with r Cons.IH [of u u1 js1] Cons.prems(2,3) show ?thesis by auto
  qed
qed

lemma collect_updates_unchanged:
  "\<forall>j \<in> set js. state j = old_state j \<Longrightarrow> collect_updates js u = (u, js)"
  by (induction js arbitrary: u) auto

lemma fold_batch_db_calls:
  "db_calls (fold (\<lambda>(newstate, joblist). batch_update_state joblist newstate) u w)
     = db_calls w @ map (\<lambda>(newstate, joblist). Batch_update_state joblist newstate) u"
  by (induction u arbitrary: w) (auto simp add: batch_update_state_def)

lemma fold_batch_store:
  "\<forall>(s, ks) \<in> set u. k \<notin> set ks \<Longrightarrow>
   store (fold (\<lambda>(newstate, joblist). batch_update_state joblist newstate) u w) k = store w k"
  by (induction u arbitrary: w) (auto simp add: batch_update_state_def)

lemma update_states_from_cache_db_calls:
  "db_calls (fst (update_states_from_cache w c)) =
     db_calls w @
       (if fst (collect_updates c []) = [] then []
        else Atomic_enter #
             map (\<lambda>(newstate, joblist). Batch_update_state joblist newstate) (fst (collect_updates c []))
             @ [Atomic_exit])"
  by (simp add: update_states_from_cache_def Let_def fold_batch_db_calls split: prod.splits)

lemma update_states_from_cache_store:
  "\<forall>(s, ks) \<in> set (fst (collect_updates c [])). k \<notin> set ks \<Longrightarrow>
   store (fst (update_states_from_cache w c)) k = store w k"
  by (auto simp add: update_states_from_cache_def Let_def fold_batch_store split: prod.splits)

text \<open>
  C10. \<^verbatim>\<open>update_states_from_cache\<close> only appends to the trace of store calls, and every key
  in a batch update it issues is the key of a cached job whose state differs from its
  \<open>old_state\<close>, updated to that job's state. When no cached job has changed, the world and
  the cache are returned as they were: no store call at all. The stored record of every
  key that no changed cached job carries is untouched, and so is every unchanged entry of
  the cache.
\<close>

theorem update_states_from_cache_writes_only_changed:
  "(\<forall>ks s k. Batch_update_state ks s
               \<in> set (drop (length (db_calls w)) (db_calls (fst (update_states_from_cache w job_cache))))
            \<longrightarrow> k \<in> set ks
            \<longrightarrow> (\<exists>j \<in> set job_cache. pk j = k \<and> state j = s \<and> state j \<noteq> old_state j))
   \<and> take (length (db_calls w)) (db_calls (fst (update_states_from_cache w job_cache))) = db_calls w
   \<and> ((\<forall>j \<in> set job_cache. state j = old_state j)
        \<longrightarrow> update_states_from_cache w job_cache = (w, job_cache))
   \<and> (\<forall>k. (\<forall>j \<in> set job_cache. pk j = k \<longrightarrow> state j = old_state j)
        \<longrightarrow> store (fst (update_states_from_cache w job_cache)) k = store w k)
   \<and> (\<forall>i < length job_cache. state (job_cache ! i) = old_state (job_cache ! i)
        \<longrightarrow> snd (update_states_from_cache w job_cache) ! i = job_cache ! i)"
proof -
  obtain u c' where cu: "collect_updates job_cache [] = (u, c')"
    by (cases "collect_updates job_cache []")
  have sound: "\<exists>j \<in> set job_cache. pk j = k \<and> state j = s \<and> state j \<noteq> old_state j"
    if "(s, ks) \<in> set u" "k \<in> set ks" for s ks k
    using collect_updates_sound [OF cu that] by simp
  have 1: "\<forall>ks s k. Batch_update_state ks s
               \<in> set (drop (length (db_calls w)) (db_calls (fst (update_states_from_cache w job_cache))))
            \<longrightarrow> k \<in> set ks
            \<longrightarrow> (\<exists>j \<in> set job_cache. pk j = k \<and> state j = s \<and> state j \<noteq> old_state j)"
    using sound by (auto simp add: update_states_from_cache_db_calls cu)
  have 2: "take (length (db_calls w)) (db_calls (fst (update_states_from_cache w job_cache))) = db_calls w"
    by (simp add: update_states_from_cache_db_calls)
  have 3: "(\<forall>j \<in> set job_cache. state j = old_state j)
        \<longrightarrow> update_states_from_cache w job_cache = (w, job_cache)"
    by (simp add: update_states_from_cache_def collect_updates_unchanged)
  have 4: "\<forall>k. (\<forall>j \<in> set job_cache. pk j = k \<longrightarrow> state j = old_state j)
        \<longrightarrow> store (fst (update_states_from_cache w job_cache)) k = store w k"
  proof (intro allI impI)
    fix k assume un: "\<forall>j \<in> set job_cache. pk j = k \<longrightarrow> state j = old_state j"
    have "\<forall>(s, ks) \<in> set (fst (collect_updates job_cache [])). k \<notin> set ks"
      using sound un by (auto simp add: cu)
    then show "store (fst (update_states_from_cache w job_cache)) k = store w k"
      by (rule update_states_from_cache_store)
  qed
  have 5: "\<forall>i < length job_cache. state (job_cache ! i) = old_state (job_cache ! i)
        \<longrightarrow> snd (update_states_from_cache w job_cache) ! i = job_cache ! i"
    by (simp add: update_states_from_cache_cache)
  from 1 2 3 4 5 show ?thesis by blast
qed

theorem update_states_from_cache_writes_only_changed_witness:
  "db_calls (fst (update_states_from_cache stale_world stale_cache))
     = [Atomic_enter, Batch_update_state [''a''] (Str ''STAGED_IN''), Atomic_exit]
   \<and> store (fst (update_states_from_cache stale_world stale_cache)) ''b'' = store stale_world ''b''
   \<and> snd (update_states_from_cache stale_world stale_cache) ! 1 = stale_cache ! 1
   \<and> update_states_from_cache stale_world [new_job ''b'' (Str ''RUN_DONE'')]
       = (stale_world, [new_job ''b'' (Str ''RUN_DONE'')])"
proof -
  note t = update_states_from_cache_writes_only_changed [of stale_world stale_cache]
  from t have "\<forall>k. (\<forall>j \<in> set stale_cache. pk j = k \<longrightarrow> state j = old_state j)
        \<longrightarrow> store (fst (update_states_from_cache stale_world stale_cache)) k = store stale_world k"
    by blast
  moreover have "\<forall>j \<in> set stale_cache. pk j = ''b'' \<longrightarrow> state j = old_state j"
    by (simp add: stale_cache_def new_job_def)
  ultimately
  have b: "store (fst (update_states_from_cache stale_world stale_cache)) ''b'' = store stale_world ''b''"
    by blast
  from t have "\<forall>i < length stale_cache. state (stale_cache ! i) = old_state (stale_cache ! i)
        \<longrightarrow> snd (update_states_from_cache stale_world stale_cache) ! i = stale_cache ! i"
    by blast
  moreover have "1 < length stale_cache \<and> state (stale_cache ! 1) = old_state (stale_cache ! 1)"
    by (simp add: stale_cache_def new_job_def)
  ultimately
  have c: "snd (update_states_from_cache stale_world stale_cache) ! 1 = stale_cache ! 1"
    by blast
  have d: "update_states_from_cache stale_world [new_job ''b'' (Str ''RUN_DONE'')]
       = (stale_world, [new_job ''b'' (Str ''RUN_DONE'')])"
  proof -
    have "\<forall>j \<in> set [new_job ''b'' (Str ''RUN_DONE'')]. state j = old_state j"
      by (simp add: new_job_def)
    with update_states_from_cache_writes_only_changed
            [of stale_world "[new_job ''b'' (Str ''RUN_DONE'')]"]
    show ?thesis by blast
  qed
  have a: "db_calls (fst (update_states_from_cache stale_world stale_cache))
     = [Atomic_enter, Batch_update_state [''a''] (Str ''STAGED_IN''), Atomic_exit]"
    by (simp add: update_states_from_cache_def batch_update_state_def stale_cache_def
        stale_world_def empty_world_def new_job_def Let_def)
  from a b c d show ?thesis by simp
qed

section \<open>Properties of the transition pass\<close>

lemma transition_pass_done_append:
  "transition_pass e w before = (Pass_done, w0, before') \<Longrightarrow>
   transition_pass e w (before @ js) =
     (case transition_pass e w0 js of (r, w3, js') \<Rightarrow> (r, w3, before' @ js'))"
proof (induction before arbitrary: w before')
  case Nil
  then show ?case by (simp split: prod.splits)
next
  case (Cons j before)
  from Cons.prems obtain f where f: "TRANSITIONS (state j) = Some f"
    by (cases "TRANSITIONS (state j)") auto
  obtain x w1 j1 where r: "f e w j = (x, w1, j1)" by (cases "f e w j")
  show ?case
  proof (cases x)
    case None
    with Cons.prems f r have nf: "\<not> exit_flag w1"
      by (auto split: if_splits)
    obtain r2 w2 before2 where p: "transition_pass e w1 before = (r2, w2, before2)"
      by (cases "transition_pass e w1 before")
    with Cons.prems f r None nf have "r2 = Pass_done" "w2 = w0" "before' = j1 # before2"
      by auto
    with p Cons.IH [of w1 before2] f r None nf show ?thesis
      by (simp split: prod.splits)
  next
    case (Some ex)
    with Cons.prems f r obtain err where err: "ex = BalsamTransitionError err"
      by (cases ex) auto
    let ?w2 = "w1\<lparr>log := log w1 @ [Exception_transition_error (pk j1) err,
                                     Exception_marking_failed (pk j1)]\<rparr>"
    from Cons.prems f r Some err have nf: "\<not> exit_flag w1"
      by (auto simp add: Let_def split: if_splits)
    obtain r2 w2 before2 where p: "transition_pass e ?w2 before = (r2, w2, before2)"
      by (cases "transition_pass e ?w2 before")
    with Cons.prems f r Some err nf
    have "r2 = Pass_done" "w2 = w0" "before' = j1\<lparr>state := Str ''FAILED''\<rparr> # before2"
      by (auto simp add: Let_def)
    with p Cons.IH [of ?w2 before2] f r Some err nf show ?thesis
      by (simp add: Let_def split: prod.splits)
  qed
qed

text \<open>
  C3. In the transition pass, let the jobs before \<open>job\<close> have been processed without
  leaving the loop, and let the transition function looked up for \<open>job\<close> raise a
  transition error. Then the job's state is set to FAILED, the error and the marking are
  logged, and the loop goes on as it does after any job: it processes the remaining jobs
  from the world the failing function left, and the results of the jobs before and after
  are those of their own transitions. Only the stop flag, tested after every job whether
  it failed or not, ends the pass early, and then too the job is FAILED and logged.
\<close>

theorem transition_error_marks_failed_and_continues:
  assumes "transition_pass e w before = (Pass_done, w0, before')"
    and "TRANSITIONS (state job) = Some transition_function"
    and "transition_function e w0 job = (Some (BalsamTransitionError err), w1, job1)"
  shows "transition_pass e w (before @ job # rest) =
     (let w2 = w1\<lparr>log := log w1 @ [Exception_transition_error (pk job1) err,
                                      Exception_marking_failed (pk job1)]\<rparr>
      in if exit_flag w1 then (Pass_break, w2, before' @ job1\<lparr>state := Str ''FAILED''\<rparr> # rest)
         else (case transition_pass e w2 rest of
                 (r, w3, rest') \<Rightarrow> (r, w3, before' @ job1\<lparr>state := Str ''FAILED''\<rparr> # rest')))"
  using assms(2,3)
  by (simp add: transition_pass_done_append [OF assms(1)] Let_def split: prod.splits)

theorem transition_error_marks_failed_and_continues_witness:
  "transition_pass quiet_env empty_world [missing_exe_job ''a'', missing_exe_job ''b'']
     = (Pass_done,
        empty_world\<lparr>log := [Exception_transition_error ''a'' Preprocessor_missing,
                             Exception_marking_failed ''a'',
                             Exception_transition_error ''b'' Preprocessor_missing,
                             Exception_marking_failed ''b'']\<rparr>,
        [(missing_exe_job ''a'')\<lparr>state := Str ''FAILED''\<rparr>,
         (missing_exe_job ''b'')\<lparr>state := Str ''FAILED''\<rparr>])"
proof -
  have pre: "\<And>w k. files w = {} \<Longrightarrow> preprocess quiet_env w (missing_exe_job k)
     = (Some (BalsamTransitionError Preprocessor_missing), w, missing_exe_job k)"
    by (simp add: preprocess_def py_split_def whitespace_def path_exists_def
      missing_exe_job_def new_job_def Let_def)
  have tr: "\<And>k. TRANSITIONS (state (missing_exe_job k)) = Some preprocess"
    by (simp add: TRANSITIONS_def missing_exe_job_def new_job_def)
  have 1: "transition_pass quiet_env empty_world [] = (Pass_done, empty_world, [])" by simp
  have 3: "preprocess quiet_env empty_world (missing_exe_job ''a'')
     = (Some (BalsamTransitionError Preprocessor_missing), empty_world, missing_exe_job ''a'')"
    by (rule pre) (simp add: empty_world_def)
  let ?w2 = "empty_world\<lparr>log := log empty_world @
      [Exception_transition_error (pk (missing_exe_job ''a'')) Preprocessor_missing,
       Exception_marking_failed (pk (missing_exe_job ''a''))]\<rparr>"
  have rest: "transition_pass quiet_env ?w2 [missing_exe_job ''b'']
     = (Pass_done,
        empty_world\<lparr>log := [Exception_transition_error ''a'' Preprocessor_missing,
                             Exception_marking_failed ''a'',
                             Exception_transition_error ''b'' Preprocessor_missing,
                             Exception_marking_failed ''b'']\<rparr>,
        [(missing_exe_job ''b'')\<lparr>state := Str ''FAILED''\<rparr>])"
    by (simp add: tr pre empty_world_def) (simp add: missing_exe_job_def new_job_def)
  have nf: "\<not> exit_flag empty_world" by (simp add: empty_world_def)
  from transition_error_marks_failed_and_continues [OF 1 tr 3, of "[missing_exe_job ''b'']"] rest nf
  show ?thesis by (simp add: Let_def)
qed

text \<open>
  The stop flag at work: with the flag set, the pass breaks after the first job, which has
  failed and is marked FAILED; the second job is not processed.
\<close>

lemma transition_pass_stop_flag_breaks:
  "preprocess quiet_env (empty_world\<lparr>exit_flag := True\<rparr>) (missing_exe_job ''a'')
     = (Some (BalsamTransitionError Preprocessor_missing), empty_world\<lparr>exit_flag := True\<rparr>,
        missing_exe_job ''a'')
   \<and> transition_pass quiet_env (empty_world\<lparr>exit_flag := True\<rparr>)
        [missing_exe_job ''a'', missing_exe_job ''b'']
     = (Pass_break,
        empty_world\<lparr>exit_flag := True,
                     log := [Exception_transition_error ''a'' Preprocessor_missing,
                             Exception_marking_failed ''a'']\<rparr>,
        [(missing_exe_job ''a'')\<lparr>state := Str ''FAILED''\<rparr>, missing_exe_job ''b''])
   \<and> state (missing_exe_job ''b'') = Str ''STAGED_IN''"
  by (simp add: TRANSITIONS_def preprocess_def py_split_def whitespace_def path_exists_def
      missing_exe_job_def new_job_def empty_world_def Let_def)

section \<open>Postprocess\<close>

text \<open>
  C1. For a job with an empty postprocess command, \<^verbatim>\<open>postprocess\<close> with both flags false
  returns without error, and the state it leaves is the one-element tuple
  \<^verbatim>\<open>('POSTPROCESSED',)\<close>, which is not the string \<^verbatim>\<open>'POSTPROCESSED'\<close>. Evaluated at a
  job in state RUN_DONE with no postprocess command.
\<close>

theorem postprocess_no_command_assigns_tuple:
  "postprocess False False quiet_env empty_world (new_job ''a'' (Str ''RUN_DONE''))
     = (None, empty_world, (new_job ''a'' (Str ''RUN_DONE''))\<lparr>state := Tuple [''POSTPROCESSED'']\<rparr>)
   \<and> postprocess_cmd (new_job ''a'' (Str ''RUN_DONE'')) = []
   \<and> Tuple [''POSTPROCESSED''] \<noteq> Str ''POSTPROCESSED''"
  by (simp add: postprocess_def new_job_def)

text \<open>
  C7. When the postprocess executable exists, the subprocess exits with code 0 and the
  reload of the job's persisted record gives \<open>j1\<close>: in error-handling mode with \<open>j1\<close>
  still in RUN_ERROR, and in timeout-handling mode with \<open>j1\<close> still in RUN_TIMEOUT,
  \<^verbatim>\<open>postprocess\<close> raises a transition error; the job it leaves is the reloaded one.
\<close>

theorem postprocess_handler_must_change_state:
  assumes "py_split (postprocess_cmd j) = exe # rest"
    and "path_exists w exe"
    and "popen e (py_split (postprocess_cmd j)) (working_directory j)
           (timeout_handling, error_handling)
           (open_write (path_join (working_directory j) ''postprocess.log'') w) = (Exited 0, w2)"
    and "refresh_from_db w2 j = Some j1"
    and "\<not> (error_handling \<and> timeout_handling)"
  shows "(error_handling \<and> state j1 = Str ''RUN_ERROR'' \<longrightarrow>
           postprocess error_handling timeout_handling e w j
             = (Some (BalsamTransitionError Error_handling_did_not_fix_state), w2, j1))
       \<and> (timeout_handling \<and> state j1 = Str ''RUN_TIMEOUT'' \<longrightarrow>
           postprocess error_handling timeout_handling e w j
             = (Some (BalsamTransitionError Timeout_handling_did_not_change_state), w2, j1))"
proof -
  from assms(1) have "postprocess_cmd j \<noteq> []"
    by (auto simp add: py_split_def)
  with assms show ?thesis
    by (auto simp add: postprocess_def Let_def)
qed

lemma py_split_fix: "py_split ''/bin/fix'' = [''/bin/fix'']"
  by (simp add: py_split_def whitespace_def)

theorem postprocess_handler_must_change_state_witness:
  "postprocess True False quiet_env handler_world handler_job
     = (Some (BalsamTransitionError Error_handling_did_not_fix_state),
        open_write (path_join (working_directory handler_job) ''postprocess.log'') handler_world,
        handler_job)
   \<and> state handler_job = Str ''RUN_ERROR''"
proof -
  have 1: "py_split (postprocess_cmd handler_job) = ''/bin/fix'' # []"
    by (simp add: handler_job_def py_split_fix)
  have 2: "path_exists handler_world ''/bin/fix''"
    by (simp add: path_exists_def handler_world_def)
  have 3: "popen quiet_env (py_split (postprocess_cmd handler_job)) (working_directory handler_job)
           (False, True)
           (open_write (path_join (working_directory handler_job) ''postprocess.log'') handler_world)
         = (Exited 0, open_write (path_join (working_directory handler_job) ''postprocess.log'') handler_world)"
    by (simp add: quiet_env_def)
  have 4: "refresh_from_db
             (open_write (path_join (working_directory handler_job) ''postprocess.log'') handler_world)
             handler_job = Some handler_job"
    by (simp add: refresh_from_db_def open_write_def handler_world_def empty_world_def
        handler_job_def new_job_def)
  have 5: "\<not> (True \<and> False)" by simp
  have 6: "state handler_job = Str ''RUN_ERROR''"
    by (simp add: handler_job_def new_job_def)
  from postprocess_handler_must_change_state [OF 1 2 3 4 5] 6 show ?thesis by simp
qed

section \<open>Cache refresh and stage-in\<close>

text \<open>
  C5. With one transitionable job and one worker, \<^verbatim>\<open>round(1 / 1 + 0.5)\<close> is
  \<^verbatim>\<open>round(1.5)\<close>, which is 2, while \<^verbatim>\<open>ceil(1 / 1)\<close> is 1.
\<close>

theorem target_count_one_worker_one_job:
  "target_count 1 1 = Inr 2 \<and> ceil_share 1 1 = 1"
  by (simp add: target_count_def py_round_def ceil_share_def Let_def)

text \<open>
  C6. For a READY job whose working directory does not exist, \<^verbatim>\<open>stage_in\<close> raises
  \<^verbatim>\<open>NameError\<close>, which is not a transition error, and leaves the filesystem as it was: the
  directory is not created.
\<close>

theorem stage_in_missing_directory_raises_NameError:
  "\<not> path_exists empty_world (working_directory (new_job ''a'' (Str ''READY'')))
   \<and> stage_in quiet_env empty_world (new_job ''a'' (Str ''READY''))
       = (Some NameError, empty_world, new_job ''a'' (Str ''READY''))"
  by (simp add: stage_in_def path_exists_def empty_world_def Let_def)

end
